theory Spec2Isabelle
  imports Main
begin

section \<open>Python values of the rules engine\<close>

text \<open>
  The engine of \<^verbatim>\<open>tic_tac_toe/game.py\<close> works on a dictionary with the keys
  \<^verbatim>\<open>player1\<close>, \<^verbatim>\<open>player2\<close>, \<^verbatim>\<open>board\<close>, \<^verbatim>\<open>next_turn\<close> and \<^verbatim>\<open>winner\<close>.
  Players are Python strings, a position is a tuple of integers of any length, the board
  is a list of rows, each a list of strings, and \<^verbatim>\<open>next_turn\<close> and \<^verbatim>\<open>winner\<close> hold a
  string or \<^verbatim>\<open>None\<close>. Floating point numbers and other non-integer tuple members are
  outside this model. The rows of a board built by \<^verbatim>\<open>start_new_game\<close> are three distinct
  list objects, so in-place assignment to one cell is a functional update of one row.
\<close>

type_synonym player = string
type_synonym position = "int list"
type_synonym board = "string list list"

datatype exn = InvalidMovement string | GameOver string | IndexError

record game =
  player1 :: player
  player2 :: player
  board :: board
  next_turn :: "player option"
  winner :: "player option"

text \<open>
  Python subscription \<^verbatim>\<open>xs[i]\<close> on a list or tuple: a negative index counts from the
  end, and an index outside the sequence raises \<^verbatim>\<open>IndexError\<close>.
\<close>

definition py_norm :: "nat \<Rightarrow> int \<Rightarrow> nat option" where
  "py_norm n i =
     (let j = (if i < 0 then int n + i else i)
      in if 0 \<le> j \<and> j < int n then Some (nat j) else None)"

definition py_getitem :: "'a list \<Rightarrow> int \<Rightarrow> exn + 'a" where
  "py_getitem xs i =
     (case py_norm (length xs) i of None \<Rightarrow> Inl IndexError | Some k \<Rightarrow> Inr (xs ! k))"

definition py_setitem :: "'a list \<Rightarrow> int \<Rightarrow> 'a \<Rightarrow> exn + 'a list" where
  "py_setitem xs i v =
     (case py_norm (length xs) i of None \<Rightarrow> Inl IndexError | Some k \<Rightarrow> Inr (xs[k := v]))"

text \<open>
  Truth value of a string or \<^verbatim>\<open>None\<close> in a Python condition: \<^verbatim>\<open>None\<close> and the empty
  string are false. \<^verbatim>\<open>str\<close> of the same values, as \<^verbatim>\<open>str.format\<close> renders them.
\<close>

fun truthy :: "string option \<Rightarrow> bool" where
  "truthy None = False"
| "truthy (Some s) = (s \<noteq> [])"

fun py_str :: "string option \<Rightarrow> string" where
  "py_str None = ''None''"
| "py_str (Some s) = s"

text \<open>\<^verbatim>\<open>'"{}"'.format(x)\<close>: the text of \<^verbatim>\<open>x\<close> between two double quotes.\<close>

definition quoted :: "string \<Rightarrow> string" where
  "quoted s = CHR 0x22 # s @ [CHR 0x22]"

text \<open>
  \<^verbatim>\<open>template.format(*args)\<close> for a template of literal pieces separated by \<^verbatim>\<open>{}\<close>
  fields: each field takes the next argument, a missing argument raises
  \<^verbatim>\<open>IndexError\<close>, and surplus arguments are ignored.
\<close>

fun py_format :: "string list \<Rightarrow> string list \<Rightarrow> exn + string" where
  "py_format [] args = Inr []"
| "py_format [l] args = Inr l"
| "py_format (l # ls) [] = Inl IndexError"
| "py_format (l # ls) (a # as) =
     (case py_format ls as of Inl e \<Rightarrow> Inl e | Inr s \<Rightarrow> Inr (l @ a @ s))"

section \<open>Internal helpers\<close>

text \<open>The expression \<^verbatim>\<open>board[position[0]][position[1]]\<close>.\<close>

definition board_at :: "board \<Rightarrow> position \<Rightarrow> exn + string" where
  "board_at b position =
     (case py_getitem position 0 of Inl e \<Rightarrow> Inl e | Inr r \<Rightarrow>
      case py_getitem b r of Inl e \<Rightarrow> Inl e | Inr row \<Rightarrow>
      case py_getitem position 1 of Inl e \<Rightarrow> Inl e | Inr c \<Rightarrow>
      py_getitem row c)"

text \<open>The assignment \<^verbatim>\<open>board[position[0]][position[1]] = player\<close>.\<close>

definition board_assign :: "board \<Rightarrow> position \<Rightarrow> string \<Rightarrow> exn + board" where
  "board_assign b position v =
     (case py_getitem position 0 of Inl e \<Rightarrow> Inl e | Inr r \<Rightarrow>
      case py_getitem b r of Inl e \<Rightarrow> Inl e | Inr row \<Rightarrow>
      case py_getitem position 1 of Inl e \<Rightarrow> Inl e | Inr c \<Rightarrow>
      case py_setitem row c v of Inl e \<Rightarrow> Inl e | Inr row' \<Rightarrow>
      py_setitem b r row')"

definition position_is_empty_in_board :: "position \<Rightarrow> board \<Rightarrow> exn + bool" where
  "position_is_empty_in_board position b =
     (case py_getitem position 0 of Inl e \<Rightarrow> Inl e | Inr position_row \<Rightarrow>
      case py_getitem position 1 of Inl e \<Rightarrow> Inl e | Inr position_column \<Rightarrow>
      case board_at b position of Inl e \<Rightarrow> Inl e | Inr v \<Rightarrow> Inr (v = ''-''))"

definition valid_positions :: "position list" where
  "valid_positions =
     [[0, 0], [0, 1], [0, 2],
      [1, 0], [1, 1], [1, 2],
      [2, 0], [2, 1], [2, 2],

      [0, 0], [1, 0], [2, 0],
      [0, 1], [1, 1], [2, 1],
      [0, 2], [1, 2], [2, 2],

      [0, 0], [1, 1], [2, 2],
      [2, 0], [1, 1], [0, 2]]"

definition position_is_valid :: "position \<Rightarrow> bool" where
  "position_is_valid position \<longleftrightarrow> position \<in> set valid_positions"

text \<open>The two nested loops of \<^verbatim>\<open>_board_is_full\<close>; the inner one is \<open>row_is_full\<close>.\<close>

fun row_is_full :: "string list \<Rightarrow> bool" where
  "row_is_full [] = True"
| "row_is_full (j # js) = (if j = ''-'' then False else row_is_full js)"

fun board_is_full :: "board \<Rightarrow> bool" where
  "board_is_full [] = True"
| "board_is_full (i # rest) = (if row_is_full i then board_is_full rest else False)"

fun is_winning_combination :: "board \<Rightarrow> position list \<Rightarrow> player \<Rightarrow> exn + bool" where
  "is_winning_combination b [] player = Inr True"
| "is_winning_combination b (position # rest) player =
     (case board_at b position of
        Inl e \<Rightarrow> Inl e
      | Inr v \<Rightarrow> if v \<noteq> player then Inr False else is_winning_combination b rest player)"

definition combinations :: "position list list" where
  "combinations =
     [[[0, 0], [0, 1], [0, 2]],
      [[1, 0], [1, 1], [1, 2]],
      [[2, 0], [2, 1], [2, 2]],

      [[0, 0], [1, 0], [2, 0]],
      [[0, 1], [1, 1], [2, 1]],
      [[0, 2], [1, 2], [2, 2]],

      [[0, 0], [1, 1], [2, 2]],
      [[2, 0], [1, 1], [0, 2]]]"

fun check_combinations_loop :: "board \<Rightarrow> position list list \<Rightarrow> player \<Rightarrow> exn + player option" where
  "check_combinations_loop b [] player = Inr None"
| "check_combinations_loop b (combination # rest) player =
     (case is_winning_combination b combination player of
        Inl e \<Rightarrow> Inl e
      | Inr True \<Rightarrow> Inr (Some player)
      | Inr False \<Rightarrow> check_combinations_loop b rest player)"

definition check_winning_combinations :: "board \<Rightarrow> player \<Rightarrow> exn + player option" where
  "check_winning_combinations b player = check_combinations_loop b combinations player"

section \<open>Public interface\<close>

definition start_new_game :: "player \<Rightarrow> player \<Rightarrow> game" where
  "start_new_game p1 p2 =
     \<lparr> player1 = p1,
       player2 = p2,
       board = [[''-'', ''-'', ''-''],
                [''-'', ''-'', ''-''],
                [''-'', ''-'', ''-'']],
       next_turn = Some p1,
       winner = None \<rparr>"

definition get_winner :: "game \<Rightarrow> player option" where
  "get_winner g = winner g"

definition get_next_turn :: "game \<Rightarrow> player option" where
  "get_next_turn g = next_turn g"

text \<open>
  \<^verbatim>\<open>move\<close> mutates the dictionary and either returns or raises. The model returns the
  raised exception (\<open>None\<close> for a normal return) together with the game as the call
  leaves it, so that a mutation made before an exception is raised stays visible.
\<close>

definition move :: "game \<Rightarrow> player \<Rightarrow> position \<Rightarrow> exn option \<times> game" where
  "move g player position =
     (let b = board g in
      if truthy (winner g) \<or> board_is_full b then
        (Some (InvalidMovement ''Game is over.''), g)
      else if Some player \<noteq> get_next_turn g then
        (Some (InvalidMovement (quoted (py_str (next_turn g)) @ '' moves next.'')), g)
      else if \<not> position_is_valid position then
        (Some (InvalidMovement ''Position out of range.''), g)
      else
        (case position_is_empty_in_board position b of
           Inl e \<Rightarrow> (Some e, g)
         | Inr False \<Rightarrow> (Some (InvalidMovement ''Position already taken.''), g)
         | Inr True \<Rightarrow>
            (case board_assign b position player of
               Inl e \<Rightarrow> (Some e, g)
             | Inr b' \<Rightarrow>
                (let g1 = g\<lparr>board := b'\<rparr> in
                 case check_winning_combinations b' player of
                   Inl e \<Rightarrow> (Some e, g1)
                 | Inr w \<Rightarrow>
                    if truthy w then
                      (Some (GameOver (quoted (py_str w) @ '' wins!'')),
                       g1\<lparr>winner := w, next_turn := None\<rparr>)
                    else if board_is_full b' then
                      (Some (GameOver ''Game is tied!''), g1\<lparr>next_turn := None\<rparr>)
                    else
                      (None,
                       g1\<lparr>next_turn :=
                            Some (if next_turn g1 = Some (player2 g1)
                                  then player1 g1 else player2 g1)\<rparr>)))))"

text \<open>
  The template of \<^verbatim>\<open>get_board_as_string\<close>, cut at its nine \<^verbatim>\<open>{}\<close> fields; it starts
  and ends with a newline.
\<close>

definition board_string :: "string list" where
  "board_string =
     [[CHR 0x0A], ''  |  '', ''  |  '',
      CHR 0x0A # ''--------------'' @ [CHR 0x0A], ''  |  '', ''  |  '',
      CHR 0x0A # ''--------------'' @ [CHR 0x0A], ''  |  '', ''  |  '',
      [CHR 0x0A]]"

definition get_board_as_string :: "game \<Rightarrow> exn + string" where
  "get_board_as_string g =
     (let flattened = concat (board g) in py_format board_string flattened)"

section \<open>Notions used to state the properties\<close>

text \<open>
  A sequence of calls to \<^verbatim>\<open>move\<close> on the same dictionary, whatever each call raises.
\<close>

fun play :: "game \<Rightarrow> (player \<times> position) list \<Rightarrow> game" where
  "play g [] = g"
| "play g ((p, pos) # ms) = play (snd (move g p pos)) ms"


text \<open>The shape of every board the engine builds: three rows of three cells.\<close>

definition board_3x3 :: "board \<Rightarrow> bool" where
  "board_3x3 b \<longleftrightarrow> length b = 3 \<and> list_all (\<lambda>row. length row = 3) b"

text \<open>The board with the cell in row \<open>r\<close>, column \<open>c\<close> set to \<open>v\<close>.\<close>

definition mark :: "board \<Rightarrow> nat \<Rightarrow> nat \<Rightarrow> string \<Rightarrow> board" where
  "mark b r c v = b[r := (b ! r)[c := v]]"

text \<open>
  The eight winning combinations as the specification describes them: the three rows,
  the three columns and the two diagonals. A player completes one when its three cells
  all hold the player's mark.
\<close>

definition spec_combinations :: "(nat \<times> nat) list list" where
  "spec_combinations =
     map (\<lambda>r. [(r, 0), (r, 1), (r, 2)]) [0, 1, 2] @
     map (\<lambda>c. [(0, c), (1, c), (2, c)]) [0, 1, 2] @
     [[(0, 0), (1, 1), (2, 2)], [(0, 2), (1, 1), (2, 0)]]"

definition completes :: "board \<Rightarrow> player \<Rightarrow> bool" where
  "completes b p \<longleftrightarrow> list_ex (list_all (\<lambda>(r, c). b ! r ! c = p)) spec_combinations"

text \<open>A full board: no cell holds the empty marker.\<close>

definition no_empty_cell :: "board \<Rightarrow> bool" where
  "no_empty_cell b \<longleftrightarrow> list_all (list_all (\<lambda>cell. cell \<noteq> ''-'')) b"

text \<open>The four validation checks of \<^verbatim>\<open>move\<close>, in their order, all passing.\<close>

definition checks_pass :: "game \<Rightarrow> player \<Rightarrow> position \<Rightarrow> bool" where
  "checks_pass g p pos \<longleftrightarrow>
     \<not> (truthy (winner g) \<or> board_is_full (board g)) \<and>
     Some p = get_next_turn g \<and>
     position_is_valid pos \<and>
     position_is_empty_in_board pos (board g) = Inr True"


text \<open>
  A call to \<^verbatim>\<open>move\<close> accepts the mark when it returns normally or raises \<^verbatim>\<open>GameOver\<close>:
  these are the outcomes that follow the assignment to the cell. \<^verbatim>\<open>InvalidMovement\<close> and
  \<^verbatim>\<open>IndexError\<close> are the outcomes of a call that is not accepted.
\<close>

fun commits :: "exn option \<Rightarrow> bool" where
  "commits None = True"
| "commits (Some (GameOver m)) = True"
| "commits (Some (InvalidMovement m)) = False"
| "commits (Some IndexError) = False"

definition accepted :: "game \<Rightarrow> player \<Rightarrow> position \<Rightarrow> bool" where
  "accepted g p pos \<longleftrightarrow> commits (fst (move g p pos))"

text \<open>
  An invariant of the games played from the start. It records what is needed about a
  player named \<^verbatim>\<open>-\<close>: the game has a winner, or neither player is named \<^verbatim>\<open>-\<close> and
  \<^verbatim>\<open>-\<close> is not to move, or the board is the initial one with player one to move, or
  \<^verbatim>\<open>-\<close> is to move and the three cells of some combination are empty.
\<close>

definition dash_inv :: "game \<Rightarrow> bool" where
  "dash_inv g \<longleftrightarrow>
     truthy (winner g) \<or>
     (player1 g \<noteq> ''-'' \<and> player2 g \<noteq> ''-'' \<and> next_turn g \<noteq> Some ''-'') \<or>
     (board g = board (start_new_game (player1 g) (player2 g)) \<and> next_turn g = Some (player1 g)) \<or>
     (completes (board g) ''-'' \<and> next_turn g = Some ''-'')"

text \<open>
  The layout in the specification's words: the cells of a row separated by \<^verbatim>\<open>" | "\<close>,
  the rows separated by \<^verbatim>\<open>"-----"\<close> rows.
\<close>

definition spec_row :: "string list \<Rightarrow> string" where
  "spec_row cells = concat (case cells of [] \<Rightarrow> [] | c # cs \<Rightarrow> c # map (\<lambda>x. '' | '' @ x) cs)"

definition spec_layout :: "board \<Rightarrow> string" where
  "spec_layout b =
     concat (case map spec_row b of [] \<Rightarrow> []
             | l # ls \<Rightarrow> l # map (\<lambda>x. CHR 0x0A # ''-----'' @ CHR 0x0A # x) ls)"

text \<open>
  Two games played from the start: one in which \<^verbatim>\<open>A\<close> holds two cells of the top row
  and is to move, and one with a single empty cell left whose filling wins for nobody.
\<close>

definition game_a_to_win :: game where
  "game_a_to_win =
     play (start_new_game ''A'' ''B'')
       [(''A'', [0, 0]), (''B'', [1, 0]), (''A'', [0, 1]), (''B'', [1, 1])]"

definition game_before_tie :: game where
  "game_before_tie =
     play (start_new_game ''A'' ''B'')
       [(''A'', [0, 0]), (''B'', [0, 1]), (''A'', [0, 2]), (''B'', [1, 1]),
        (''A'', [1, 0]), (''B'', [1, 2]), (''A'', [2, 1]), (''B'', [2, 0])]"

section \<open>Facts about the helpers\<close>

lemma py_norm_nat: "k < n \<Longrightarrow> py_norm n (int k) = Some k"
  by (simp add: py_norm_def)

lemma py_getitem_nat: "k < length xs \<Longrightarrow> py_getitem xs (int k) = Inr (xs ! k)"
  by (simp add: py_getitem_def py_norm_nat)

lemma py_setitem_nat: "k < length xs \<Longrightarrow> py_setitem xs (int k) v = Inr (xs[k := v])"
  by (simp add: py_setitem_def py_norm_nat)

lemma py_getitem_pair: "py_getitem [a, b] 0 = Inr a" "py_getitem [a, b] 1 = Inr b"
  by (simp_all add: py_getitem_def py_norm_def)

lemma board_3x3_row: "board_3x3 b \<Longrightarrow> r < 3 \<Longrightarrow> length (b ! r) = 3"
  by (simp add: board_3x3_def list_all_length)

lemma board_3x3_explode:
  assumes "board_3x3 b"
  obtains a0 a1 a2 b0 b1 b2 c0 c1 c2
  where "b = [[a0, a1, a2], [b0, b1, b2], [c0, c1, c2]]"
proof -
  have len3: "\<exists>x y z. xs = [x, y, z]" if "length xs = 3" for xs :: "'a list"
    using that by (auto simp: numeral_3_eq_3 length_Suc_conv)
  from assms obtain r0 r1 r2 where b: "b = [r0, r1, r2]"
    using len3[of b] by (auto simp: board_3x3_def)
  with assms have "length r0 = 3" "length r1 = 3" "length r2 = 3"
    by (simp_all add: board_3x3_def)
  then obtain a0 a1 a2 b0 b1 b2 c0 c1 c2
    where "r0 = [a0, a1, a2]" "r1 = [b0, b1, b2]" "r2 = [c0, c1, c2]"
    using len3[of r0] len3[of r1] len3[of r2] by auto
  with b show thesis using that by blast
qed

lemma board_3x3_length: "board_3x3 b \<Longrightarrow> length b = 3"
  by (simp add: board_3x3_def)

lemma board_at_3x3:
  "board_3x3 b \<Longrightarrow> r < 3 \<Longrightarrow> c < 3 \<Longrightarrow> board_at b [int r, int c] = Inr (b ! r ! c)"
  by (simp add: board_at_def py_getitem_pair py_getitem_nat board_3x3_row board_3x3_length)

lemma board_assign_3x3:
  "board_3x3 b \<Longrightarrow> r < 3 \<Longrightarrow> c < 3 \<Longrightarrow> board_assign b [int r, int c] v = Inr (mark b r c v)"
  by (simp add: board_assign_def py_getitem_pair py_getitem_nat py_setitem_nat board_3x3_row board_3x3_length mark_def)

lemma mark_3x3: "board_3x3 b \<Longrightarrow> board_3x3 (mark b r c v)"
  by (cases "r < length b") (auto simp: board_3x3_def mark_def list_all_length nth_list_update)

lemma position_is_valid_set:
  "position_is_valid pos \<longleftrightarrow> (\<exists>r\<in>{0, 1, 2}. \<exists>c\<in>{0, 1, 2}. pos = [r, c])"
  unfolding position_is_valid_def valid_positions_def
  by (simp only: set_simps insert_iff empty_iff bex_simps HOL.simp_thms) argo

lemma position_is_valid_nat:
  "position_is_valid pos \<longleftrightarrow> (\<exists>r c. r < 3 \<and> c < 3 \<and> pos = [int r, int c])"
proof
  assume "position_is_valid pos"
  then obtain r c :: int where rc: "r \<in> {0, 1, 2}" "c \<in> {0, 1, 2}" "pos = [r, c]"
    unfolding position_is_valid_set by blast
  then have "nat r < 3 \<and> nat c < 3 \<and> pos = [int (nat r), int (nat c)]"
    by auto
  then show "\<exists>r c. r < 3 \<and> c < 3 \<and> pos = [int r, int c]" by blast
next
  assume "\<exists>r c. r < 3 \<and> c < 3 \<and> pos = [int r, int c]"
  then obtain r c :: nat where rc: "r < 3" "c < 3" "pos = [int r, int c]" by blast
  then have "int r \<in> {0, 1, 2}" "int c \<in> {0, 1, 2}" by auto
  with rc(3) show "position_is_valid pos"
    unfolding position_is_valid_set by blast
qed

lemma board_is_full_iff: "board_is_full b \<longleftrightarrow> no_empty_cell b"
proof -
  have row: "row_is_full xs \<longleftrightarrow> list_all (\<lambda>cell. cell \<noteq> ''-'') xs" for xs
    by (induction xs) auto
  show ?thesis unfolding no_empty_cell_def
    by (induction b) (auto simp: row)
qed

lemma check_win_explicit:
  "check_winning_combinations [[a0, a1, a2], [b0, b1, b2], [c0, c1, c2]] p =
     Inr (if completes [[a0, a1, a2], [b0, b1, b2], [c0, c1, c2]] p then Some p else None)"
  by (simp add: check_winning_combinations_def combinations_def board_at_def py_getitem_def py_norm_def
        completes_def spec_combinations_def)

lemma check_win_3x3:
  "board_3x3 b \<Longrightarrow> check_winning_combinations b p = Inr (if completes b p then Some p else None)"
  by (erule board_3x3_explode) (simp only: check_win_explicit)

lemma py_getitem_Inl: "py_getitem xs i = Inl e \<Longrightarrow> e = IndexError"
  by (simp add: py_getitem_def split: option.splits)

lemma py_setitem_Inl: "py_setitem xs i v = Inl e \<Longrightarrow> e = IndexError"
  by (simp add: py_setitem_def split: option.splits)

lemma board_at_Inl: "board_at b pos = Inl e \<Longrightarrow> e = IndexError"
  by (auto simp: board_at_def split: sum.splits dest: py_getitem_Inl)

lemma position_is_empty_Inl: "position_is_empty_in_board pos b = Inl e \<Longrightarrow> e = IndexError"
  by (auto simp: position_is_empty_in_board_def split: sum.splits dest: py_getitem_Inl board_at_Inl)

lemma board_assign_Inl: "board_assign b pos v = Inl e \<Longrightarrow> e = IndexError"
  by (auto simp: board_assign_def split: sum.splits dest: py_getitem_Inl py_setitem_Inl)

lemma is_winning_combination_Inl: "is_winning_combination b combo p = Inl e \<Longrightarrow> e = IndexError"
  by (induction combo) (auto split: sum.splits if_splits dest: board_at_Inl)

lemma check_combinations_loop_Inl: "check_combinations_loop b combos p = Inl e \<Longrightarrow> e = IndexError"
  by (induction combos) (auto split: sum.splits bool.splits dest: is_winning_combination_Inl)

lemma check_winning_combinations_Inl: "check_winning_combinations b p = Inl e \<Longrightarrow> e = IndexError"
  by (simp add: check_winning_combinations_def check_combinations_loop_Inl)

lemma move_game_over:
  "truthy (winner g) \<or> no_empty_cell (board g) \<Longrightarrow>
     move g p pos = (Some (InvalidMovement ''Game is over.''), g)"
  by (simp add: move_def board_is_full_iff)

lemma move_GameOver_terminal:
  "fst (move g p pos) = Some (GameOver m) \<Longrightarrow>
     truthy (winner (snd (move g p pos))) \<or> no_empty_cell (board (snd (move g p pos)))"
  by (auto simp: move_def Let_def board_is_full_iff split: if_splits sum.splits bool.splits
      dest: position_is_empty_Inl board_assign_Inl check_winning_combinations_Inl)

lemma move_out_of_range:
  assumes "\<not> truthy (winner g)" and "\<not> no_empty_cell (board g)" and "next_turn g = Some p"
    and "\<not> position_is_valid pos"
  shows "move g p pos = (Some (InvalidMovement ''Position out of range.''), g)"
  using assms by (simp add: move_def board_is_full_iff get_next_turn_def)

lemma move_in_range:
  assumes "position_is_valid pos"
  shows "fst (move g p pos) \<noteq> Some (InvalidMovement ''Position out of range.'')"
  using assms
  by (auto simp: move_def Let_def split: if_splits sum.splits bool.splits
      dest: position_is_empty_Inl board_assign_Inl check_winning_combinations_Inl)

lemma not_length_2_invalid: "length pos \<noteq> 2 \<Longrightarrow> \<not> position_is_valid pos"
  by (auto simp: position_is_valid_set)

lemma checks_pass_bounds:
  assumes "checks_pass g p [int r, int c]"
  shows "r < 3" and "c < 3"
proof -
  from assms have "position_is_valid [int r, int c]" by (simp add: checks_pass_def)
  then obtain r' c' where "r' < 3" "c' < 3" "[int r, int c] = [int r', int c']"
    unfolding position_is_valid_nat by blast
  then show "r < 3" and "c < 3" by simp_all
qed

lemma position_is_empty_3x3:
  "board_3x3 b \<Longrightarrow> r < 3 \<Longrightarrow> c < 3 \<Longrightarrow>
     position_is_empty_in_board [int r, int c] b = Inr (b ! r ! c = ''-'')"
  by (simp add: position_is_empty_in_board_def py_getitem_pair board_at_3x3)

lemma move_valid:
  assumes shape: "board_3x3 (board g)" and ok: "checks_pass g p [int r, int c]"
  shows "move g p [int r, int c] =
     (if p \<noteq> [] \<and> completes (mark (board g) r c p) p then
        (Some (GameOver (quoted p @ '' wins!'')),
         g\<lparr>board := mark (board g) r c p, winner := Some p, next_turn := None\<rparr>)
      else if no_empty_cell (mark (board g) r c p) then
        (Some (GameOver ''Game is tied!''),
         g\<lparr>board := mark (board g) r c p, next_turn := None\<rparr>)
      else
        (None,
         g\<lparr>board := mark (board g) r c p,
            next_turn := Some (if next_turn g = Some (player2 g) then player1 g else player2 g)\<rparr>))"
proof -
  have rc: "r < 3" "c < 3" using checks_pass_bounds[OF ok] .
  have assign: "board_assign (board g) [int r, int c] p = Inr (mark (board g) r c p)"
    using shape rc by (rule board_assign_3x3)
  have win: "check_winning_combinations (mark (board g) r c p) p =
      Inr (if completes (mark (board g) r c p) p then Some p else None)"
    using mark_3x3[OF shape] by (rule check_win_3x3)
  from ok have pre: "\<not> truthy (winner g)" "\<not> board_is_full (board g)"
      "get_next_turn g = Some p" "position_is_valid [int r, int c]"
      "position_is_empty_in_board [int r, int c] (board g) = Inr True"
    by (simp_all add: checks_pass_def)
  have full: "board_is_full (mark (board g) r c p) = no_empty_cell (mark (board g) r c p)"
    by (rule board_is_full_iff)
  show ?thesis
    using pre assign win full by (auto simp: move_def Let_def)
qed



lemma py_norm_Some: "py_norm n i = Some k \<Longrightarrow> k < n"
  by (auto simp: py_norm_def Let_def split: if_splits)

lemma board_assign_shape:
  assumes "position_is_empty_in_board pos b = Inr True" and "board_assign b pos v = Inr b'"
  shows "\<exists>k j. k < length b \<and> j < length (b ! k) \<and> b ! k ! j = ''-'' \<and>
               b' = b[k := (b ! k)[j := v]]"
  using assms
  by (auto simp: position_is_empty_in_board_def board_at_def board_assign_def
        py_getitem_def py_setitem_def
      split: sum.splits option.splits dest!: py_norm_Some)

lemma move_board:
  "board (snd (move g p pos)) = board g \<or>
   (\<exists>k j. k < length (board g) \<and> j < length (board g ! k) \<and> board g ! k ! j = ''-'' \<and>
           board (snd (move g p pos)) = (board g)[k := (board g ! k)[j := p]])"
proof (cases "position_is_empty_in_board pos (board g) = Inr True \<and>
    (\<exists>b'. board_assign (board g) pos p = Inr b')")
  case True
  then obtain b' where e: "position_is_empty_in_board pos (board g) = Inr True"
    and a: "board_assign (board g) pos p = Inr b'" by blast
  from board_assign_shape[OF e a] obtain k j where kj: "k < length (board g)"
    "j < length (board g ! k)" "board g ! k ! j = ''-''" "b' = (board g)[k := (board g ! k)[j := p]]"
    by blast
  have "board (snd (move g p pos)) = board g \<or> board (snd (move g p pos)) = b'"
    using e a by (auto simp: move_def Let_def split: sum.splits)
  with kj show ?thesis by blast
next
  case False
  then have "board (snd (move g p pos)) = board g"
    by (auto simp: move_def Let_def split: sum.splits bool.splits)
  then show ?thesis ..
qed

lemma move_keeps_cell:
  assumes "r < length (board g)" and "c < length (board g ! r)" and "board g ! r ! c \<noteq> ''-''"
  shows "r < length (board (snd (move g p pos))) \<and>
         c < length (board (snd (move g p pos)) ! r) \<and>
         board (snd (move g p pos)) ! r ! c = board g ! r ! c"
  using move_board[of g p pos] assms
  by (auto simp: nth_list_update)

lemma play_keeps_cell:
  assumes "r < length (board g)" and "c < length (board g ! r)" and "board g ! r ! c \<noteq> ''-''"
  shows "r < length (board (play g ms)) \<and> c < length (board (play g ms) ! r) \<and>
         board (play g ms) ! r ! c = board g ! r ! c"
  using assms
proof (induction ms arbitrary: g)
  case Nil
  then show ?case by simp
next
  case (Cons m ms)
  obtain p pos where m: "m = (p, pos)" by (cases m)
  from move_keeps_cell[OF Cons.prems, of p pos]
  have k: "r < length (board (snd (move g p pos)))"
    "c < length (board (snd (move g p pos)) ! r)"
    "board (snd (move g p pos)) ! r ! c = board g ! r ! c" by simp_all
  with Cons.prems(3) have "board (snd (move g p pos)) ! r ! c \<noteq> ''-''" by simp
  from Cons.IH[OF k(1,2) this] k(3) show ?case by (simp add: m)
qed

lemma move_keeps_3x3: "board_3x3 (board g) \<Longrightarrow> board_3x3 (board (snd (move g p pos)))"
  using move_board[of g p pos] mark_3x3[of "board g"] by (auto simp: mark_def)

lemma play_keeps_3x3: "board_3x3 (board g) \<Longrightarrow> board_3x3 (board (play g ms))"
  by (induction ms arbitrary: g) (auto simp: move_keeps_3x3)

lemma move_taken:
  assumes "board_3x3 (board g)" and "r < 3" and "c < 3" and "board g ! r ! c \<noteq> ''-''"
    and "\<not> truthy (winner g)" and "\<not> no_empty_cell (board g)" and "next_turn g = Some q"
  shows "move g q [int r, int c] = (Some (InvalidMovement ''Position already taken.''), g)"
proof -
  have v: "position_is_valid [int r, int c]"
    unfolding position_is_valid_nat using assms(2,3) by blast
  have e: "position_is_empty_in_board [int r, int c] (board g) = Inr False"
    using assms(1-4) by (simp add: position_is_empty_3x3)
  show ?thesis
    using assms(5-7) v e by (simp add: move_def board_is_full_iff get_next_turn_def)
qed

lemma move_valid_board:
  "board_3x3 (board g) \<Longrightarrow> checks_pass g p [int r, int c] \<Longrightarrow>
     board (snd (move g p [int r, int c])) = mark (board g) r c p"
  by (simp add: move_valid)


lemma accepted_checks_pass: "accepted g p pos \<Longrightarrow> checks_pass g p pos"
  by (auto simp: accepted_def checks_pass_def move_def Let_def
      split: if_splits sum.splits bool.splits dest: position_is_empty_Inl)

lemma checks_pass_position:
  assumes "checks_pass g p pos"
  obtains r c where "r < 3" "c < 3" "pos = [int r, int c]"
  using assms unfolding checks_pass_def position_is_valid_nat by blast

lemma checks_pass_accepted:
  assumes "board_3x3 (board g)" and "checks_pass g p pos"
  shows "accepted g p pos"
proof -
  from assms(2) obtain r c where rc: "pos = [int r, int c]" by (rule checks_pass_position)
  from assms(2) have "checks_pass g p [int r, int c]" by (simp add: rc)
  from move_valid[OF assms(1) this] show ?thesis
    by (simp add: accepted_def rc)
qed

lemma not_checks_pass_unchanged: "\<not> checks_pass g p pos \<Longrightarrow> snd (move g p pos) = g"
  by (auto simp: checks_pass_def move_def Let_def split: if_splits sum.splits bool.splits)

lemma not_accepted_unchanged:
  "board_3x3 (board g) \<Longrightarrow> \<not> accepted g p pos \<Longrightarrow> snd (move g p pos) = g"
  using checks_pass_accepted not_checks_pass_unchanged by blast

lemma nonempty_not_accepted:
  assumes "board_3x3 (board g)" and "r < 3" and "c < 3" and "board g ! r ! c \<noteq> ''-''"
  shows "\<not> accepted g q [int r, int c]"
proof
  assume "accepted g q [int r, int c]"
  then have "checks_pass g q [int r, int c]" by (rule accepted_checks_pass)
  then have "position_is_empty_in_board [int r, int c] (board g) = Inr True"
    by (simp add: checks_pass_def)
  with assms show False by (simp add: position_is_empty_3x3)
qed

lemma terminal_not_accepted: "truthy (winner g) \<Longrightarrow> \<not> accepted g q pos"
  by (simp add: accepted_def move_game_over)

lemma terminal_play: "truthy (winner g) \<Longrightarrow> play g ms = g"
  by (induction ms) (auto simp: move_game_over)

lemma mark_cell: "board_3x3 b \<Longrightarrow> r < 3 \<Longrightarrow> c < 3 \<Longrightarrow> mark b r c v ! r ! c = v"
  by (simp add: mark_def board_3x3_length board_3x3_row)

lemma mark_same: "board_3x3 b \<Longrightarrow> r < 3 \<Longrightarrow> c < 3 \<Longrightarrow> b ! r ! c = v \<Longrightarrow> mark b r c v = b"
  by (auto simp: mark_def)

lemma checks_pass_cell:
  assumes "board_3x3 (board g)" and "checks_pass g p [int r, int c]"
  shows "board g ! r ! c = ''-''"
proof -
  have rc: "r < 3" "c < 3" using checks_pass_bounds[OF assms(2)] .
  from assms(2) have "position_is_empty_in_board [int r, int c] (board g) = Inr True"
    by (simp add: checks_pass_def)
  with assms(1) rc show ?thesis by (simp add: position_is_empty_3x3)
qed

lemma dash_wins:
  assumes "board_3x3 (board g)" and "checks_pass g ''-'' [int r, int c]"
    and "completes (board g) ''-''"
  shows "truthy (winner (snd (move g ''-'' [int r, int c])))"
proof -
  have rc: "r < 3" "c < 3" using checks_pass_bounds[OF assms(2)] .
  have "mark (board g) r c ''-'' = board g"
    using assms(1) rc checks_pass_cell[OF assms(1,2)] by (rule mark_same)
  with assms(3) show ?thesis by (simp add: move_valid[OF assms(1,2)])
qed

lemma fresh_board_completes: "completes (board (start_new_game p1 p2)) ''-''"
  by (simp add: start_new_game_def completes_def spec_combinations_def)

lemma first_mark_leaves_line:
  assumes "r < 3" and "c < 3"
  shows "completes (mark (board (start_new_game p1 p2)) r c p) ''-''"
proof -
  from assms have rc: "r = 0 \<or> r = Suc 0 \<or> r = Suc (Suc 0)" "c = 0 \<or> c = Suc 0 \<or> c = Suc (Suc 0)"
    by arith+
  show ?thesis using rc
    by (elim disjE)
      (simp_all add: start_new_game_def completes_def spec_combinations_def mark_def numeral_2_eq_2)
qed

lemma first_mark_no_win:
  assumes "r < 3" and "c < 3" and "p \<noteq> ''-''"
  shows "\<not> completes (mark (board (start_new_game p1 p2)) r c p) p"
proof -
  from assms have rc: "r = 0 \<or> r = Suc 0 \<or> r = Suc (Suc 0)" "c = 0 \<or> c = Suc 0 \<or> c = Suc (Suc 0)"
    by arith+
  from assms(3) have p: "''-'' \<noteq> p" by simp
  show ?thesis using rc
    by (elim disjE)
      (simp_all add: p start_new_game_def completes_def spec_combinations_def mark_def numeral_2_eq_2)
qed

lemma first_mark_not_full:
  assumes "r < 3" and "c < 3"
  shows "\<not> no_empty_cell (mark (board (start_new_game p1 p2)) r c p)"
proof -
  from assms have rc: "r = 0 \<or> r = Suc 0 \<or> r = Suc (Suc 0)" "c = 0 \<or> c = Suc 0 \<or> c = Suc (Suc 0)"
    by arith+
  show ?thesis using rc
    by (elim disjE)
      (simp_all add: start_new_game_def no_empty_cell_def mark_def)
qed

lemma dash_inv_start: "dash_inv (start_new_game p1 p2)"
  by (simp add: dash_inv_def start_new_game_def)

lemma dash_inv_accepted:
  assumes "board_3x3 (board g)" and "dash_inv g" and "accepted g ''-'' pos"
  shows "truthy (winner (snd (move g ''-'' pos)))"
proof -
  from assms(3) have cp: "checks_pass g ''-'' pos" by (rule accepted_checks_pass)
  then obtain r c where rc: "pos = [int r, int c]" by (rule checks_pass_position)
  from cp have pre: "\<not> truthy (winner g)" "next_turn g = Some ''-''"
    by (simp_all add: checks_pass_def get_next_turn_def)
  with assms(2) have "completes (board g) ''-''"
    using fresh_board_completes[of "player1 g" "player2 g"] by (auto simp: dash_inv_def)
  with assms(1) cp show ?thesis unfolding rc by (intro dash_wins)
qed

lemma move_players:
  "player1 (snd (move g p pos)) = player1 g \<and> player2 (snd (move g p pos)) = player2 g"
  by (auto simp: move_def Let_def split: if_splits sum.splits bool.splits)

lemma move_next_turn:
  "next_turn (snd (move g p pos)) = next_turn g \<or> next_turn (snd (move g p pos)) = None \<or>
   next_turn (snd (move g p pos)) = Some (player1 g) \<or>
   next_turn (snd (move g p pos)) = Some (player2 g)"
  by (auto simp: move_def Let_def split: if_splits sum.splits bool.splits)

lemma dash_inv_move:
  assumes shape: "board_3x3 (board g)" and inv: "dash_inv g"
  shows "dash_inv (snd (move g p pos))"
proof (cases "accepted g p pos")
  case False
  with shape inv show ?thesis by (simp add: not_accepted_unchanged)
next
  case True
  then have cp: "checks_pass g p pos" by (rule accepted_checks_pass)
  then obtain r c where rc: "r < 3" "c < 3" "pos = [int r, int c]" by (rule checks_pass_position)
  from cp have pre: "\<not> truthy (winner g)" "next_turn g = Some p"
    by (simp_all add: checks_pass_def get_next_turn_def)
  let ?g' = "snd (move g p pos)"
  note pl = move_players[of g p pos]
  show ?thesis
  proof (cases "p = ''-''")
    case True
    with shape inv \<open>accepted g p pos\<close> have "truthy (winner ?g')"
      by (simp add: dash_inv_accepted)
    then show ?thesis by (simp add: dash_inv_def)
  next
    case False
    show ?thesis
    proof (cases "player1 g \<noteq> ''-'' \<and> player2 g \<noteq> ''-''")
      case True
      with move_next_turn[of g p pos] pre False pl show ?thesis
        by (auto simp: dash_inv_def)
    next
      case dash: False
      with inv pre False have fresh: "board g = board (start_new_game (player1 g) (player2 g))"
        and p1: "p = player1 g"
        by (auto simp: dash_inv_def)
      from dash p1 False have p2: "player2 g = ''-''" by simp
      have line: "completes (mark (board g) r c p) ''-''"
        unfolding fresh using rc(1,2) by (rule first_mark_leaves_line)
      have cp': "checks_pass g p [int r, int c]" using cp rc(3) by simp
      have nowin: "\<not> completes (mark (board g) r c p) p"
        unfolding fresh using rc(1,2) False by (rule first_mark_no_win)
      have notfull: "\<not> no_empty_cell (mark (board g) r c p)"
        unfolding fresh using rc(1,2) by (rule first_mark_not_full)
      from move_valid[OF shape cp'] nowin notfull
      have "?g' = g\<lparr>board := mark (board g) r c p,
            next_turn := Some (if next_turn g = Some (player2 g) then player1 g else player2 g)\<rparr>"
        by (simp add: rc(3))
      with line pre p1 p2 False show ?thesis
        by (simp add: dash_inv_def)
    qed
  qed
qed

lemma dash_inv_play:
  "board_3x3 (board g) \<Longrightarrow> dash_inv g \<Longrightarrow> dash_inv (play g ms)"
  by (induction ms arbitrary: g) (auto simp: dash_inv_move move_keeps_3x3)

lemma start_3x3: "board_3x3 (board (start_new_game p1 p2))"
  by (simp add: start_new_game_def board_3x3_def)

lemma checks_passI:
  assumes "board_3x3 (board g)" and "\<not> truthy (winner g)" and "\<not> no_empty_cell (board g)"
    and "next_turn g = Some p" and "r < 3" and "c < 3" and "board g ! r ! c = ''-''"
  shows "checks_pass g p [int r, int c]"
proof -
  have v: "position_is_valid [int r, int c]"
    unfolding position_is_valid_nat using assms(5,6) by blast
  have e: "position_is_empty_in_board [int r, int c] (board g) = Inr True"
    using assms(1,5-7) by (simp add: position_is_empty_3x3)
  from assms(2-4) v e show ?thesis
    by (simp add: checks_pass_def board_is_full_iff get_next_turn_def)
qed

lemma not_accepted_invalid:
  assumes "board_3x3 (board g)" and "r < 3" and "c < 3" and "\<not> accepted g q [int r, int c]"
  shows "\<exists>m. move g q [int r, int c] = (Some (InvalidMovement m), g)"
proof (cases "truthy (winner g) \<or> no_empty_cell (board g)")
  case True
  then show ?thesis by (simp add: move_game_over)
next
  case live: False
  show ?thesis
  proof (cases "next_turn g = Some q")
    case True
    have "board g ! r ! c \<noteq> ''-''"
    proof
      assume "board g ! r ! c = ''-''"
      with assms(1-3) live True have "checks_pass g q [int r, int c]"
        by (intro checks_passI) simp_all
      with assms(1,4) show False using checks_pass_accepted by blast
    qed
    with assms(1-3) live True
    have "move g q [int r, int c] = (Some (InvalidMovement ''Position already taken.''), g)"
      by (intro move_taken) simp_all
    then show ?thesis by simp
  next
    case False
    with live show ?thesis
      by (auto simp: move_def board_is_full_iff get_next_turn_def)
  qed
qed

lemma play_taken:
  assumes "board_3x3 (board g)" and "r < 3" and "c < 3" and "board g ! r ! c \<noteq> ''-''"
    and "\<not> truthy (winner (play g ms))" and "\<not> no_empty_cell (board (play g ms))"
    and "next_turn (play g ms) = Some q"
  shows "move (play g ms) q [int r, int c] =
           (Some (InvalidMovement ''Position already taken.''), play g ms)"
proof -
  have "r < length (board g)" "c < length (board g ! r)"
    using assms(1-3) by (simp_all add: board_3x3_length board_3x3_row)
  from play_keeps_cell[OF this assms(4)]
  have "board (play g ms) ! r ! c \<noteq> ''-''" using assms(4) by simp
  with play_keeps_3x3[OF assms(1)] assms(2,3,5-7) show ?thesis
    by (intro move_taken)
qed

lemma later_calls_refused:
  assumes "accepted (play (start_new_game p1 p2) ms) p pos"
  shows "\<exists>m. move (play (snd (move (play (start_new_game p1 p2) ms) p pos)) ms') q pos =
           (Some (InvalidMovement m), play (snd (move (play (start_new_game p1 p2) ms) p pos)) ms')"
proof -
  let ?g = "play (start_new_game p1 p2) ms"
  let ?g' = "snd (move ?g p pos)"
  have shape: "board_3x3 (board ?g)" using start_3x3 by (rule play_keeps_3x3)
  have inv: "dash_inv ?g" using start_3x3 dash_inv_start by (rule dash_inv_play)
  from assms have cp: "checks_pass ?g p pos" by (rule accepted_checks_pass)
  then obtain r c where rc: "r < 3" "c < 3" "pos = [int r, int c]" by (rule checks_pass_position)
  show ?thesis
  proof (cases "truthy (winner ?g')")
    case True
    then show ?thesis by (simp add: terminal_play move_game_over)
  next
    case False
    with dash_inv_accepted[OF shape inv] assms have p: "p \<noteq> ''-''" by blast
    have shape': "board_3x3 (board ?g')" using shape by (rule move_keeps_3x3)
    have "board ?g' = mark (board ?g) r c p"
      using shape cp unfolding rc(3) by (rule move_valid_board)
    with shape rc(1,2) p have cell: "board ?g' ! r ! c \<noteq> ''-''"
      by (simp add: mark_cell)
    have "r < length (board ?g')" "c < length (board ?g' ! r)"
      using shape' rc(1,2) by (simp_all add: board_3x3_length board_3x3_row)
    from play_keeps_cell[OF this cell, of ms'] cell
    have "board (play ?g' ms') ! r ! c \<noteq> ''-''" by simp
    with play_keeps_3x3[OF shape', of ms'] rc(1,2)
    have "\<not> accepted (play ?g' ms') q [int r, int c]"
      by (intro nonempty_not_accepted)
    with play_keeps_3x3[OF shape', of ms'] rc(1,2) show ?thesis
      unfolding rc(3) by (intro not_accepted_invalid)
  qed
qed

section \<open>Rejected moves\<close>

text \<open>
  Claim C2 (as amended). In a terminal game, that is one whose \<^verbatim>\<open>winner\<close> holds a non-empty
  player or whose board has no empty cell, and so after any call that raised
  \<^verbatim>\<open>GameOver\<close>, every call to \<^verbatim>\<open>move\<close>, by any player and with any position, raises
  \<^verbatim>\<open>InvalidMovement\<close> and leaves the game unchanged. The check comes first: neither the
  player nor the position is looked at. The message is \<^verbatim>\<open>Game is over.\<close>, with a final
  period.
\<close>

theorem game_over_rejected:
  "(truthy (winner g) \<or> no_empty_cell (board g) \<longrightarrow>
      move g p pos = (Some (InvalidMovement ''Game is over.''), g)) \<and>
   (fst (move g0 p0 pos0) = Some (GameOver m) \<longrightarrow>
      move (snd (move g0 p0 pos0)) p pos =
        (Some (InvalidMovement ''Game is over.''), snd (move g0 p0 pos0)))"
  using move_game_over move_GameOver_terminal by blast

theorem game_over_rejected_witness:
  "move (snd (move game_a_to_win ''A'' [0, 2])) ''B'' [2, 2] =
     (Some (InvalidMovement ''Game is over.''), snd (move game_a_to_win ''A'' [0, 2])) \<and>
   move (snd (move game_before_tie ''A'' [2, 2])) ''B'' [0, 0] =
     (Some (InvalidMovement ''Game is over.''), snd (move game_before_tie ''A'' [2, 2]))"
proof -
  have h1: "fst (move game_a_to_win ''A'' [0, 2]) =
      Some (GameOver (CHR 0x22 # ''A'' @ CHR 0x22 # '' wins!''))" by code_simp
  have h2: "truthy (winner (snd (move game_before_tie ''A'' [2, 2]))) \<or>
      no_empty_cell (board (snd (move game_before_tie ''A'' [2, 2])))" by code_simp
  from game_over_rejected[THEN conjunct2, rule_format, OF h1]
    game_over_rejected[THEN conjunct1, rule_format, OF h2]
  show ?thesis by simp
qed

theorem game_over_message_counterexample:
  "fst (move (snd (move game_a_to_win ''A'' [0, 2])) ''B'' [2, 2]) =
     Some (InvalidMovement ''Game is over.'') \<and>
   fst (move (snd (move game_a_to_win ''A'' [0, 2])) ''B'' [2, 2]) \<noteq>
     Some (InvalidMovement ''Game is over'')"
  by code_simp

text \<open>
  Claim C5 (as amended). In a game that is not over, a move by a player other than the
  one in \<^verbatim>\<open>next_turn\<close> is rejected, for any position and before the range and occupancy
  checks, with \<^verbatim>\<open>InvalidMovement\<close> and the game unchanged. The message is the text of
  \<^verbatim>\<open>next_turn\<close> between double quotes followed by \<^verbatim>\<open> moves next.\<close> with a final period,
  not the bare \<^verbatim>\<open><player> moves next\<close>.
\<close>

theorem wrong_player_rejected:
  assumes "\<not> truthy (winner g)" and "\<not> no_empty_cell (board g)" and "Some p \<noteq> next_turn g"
  shows "move g p pos =
           (Some (InvalidMovement (CHR 0x22 # py_str (next_turn g) @ CHR 0x22 # '' moves next.'')), g)"
  using assms by (simp add: move_def board_is_full_iff get_next_turn_def quoted_def)

theorem wrong_player_rejected_witness:
  "move (start_new_game ''A'' ''B'') ''B'' [7, 7, 7] =
     (Some (InvalidMovement (CHR 0x22 # ''A'' @ CHR 0x22 # '' moves next.'')),
      start_new_game ''A'' ''B'')"
proof -
  have "\<not> truthy (winner (start_new_game ''A'' ''B''))"
    and "\<not> no_empty_cell (board (start_new_game ''A'' ''B''))"
    and "Some ''B'' \<noteq> next_turn (start_new_game ''A'' ''B'')"
    by (simp_all add: start_new_game_def no_empty_cell_def)
  from wrong_player_rejected[OF this, of "[7, 7, 7]"] show ?thesis
    by (simp add: start_new_game_def)
qed

theorem wrong_player_message_counterexample:
  "fst (move (start_new_game ''A'' ''B'') ''B'' [0, 0]) \<noteq>
     Some (InvalidMovement ''A moves next'')"
  by code_simp

text \<open>
  Claim C6 (as amended). In a game that is not over, when the player in \<^verbatim>\<open>next_turn\<close>
  moves, \<^verbatim>\<open>move\<close> raises \<^verbatim>\<open>InvalidMovement\<close> with the message
  \<^verbatim>\<open>Position out of range.\<close> (with a final period) exactly when the position is not one of
  the nine pairs of a row and a column in 0, 1, 2; every tuple whose length is not two is
  such a position. The game is then unchanged, whatever the board holds: the check comes
  before the occupancy check.
\<close>

theorem out_of_range_iff:
  assumes "\<not> truthy (winner g)" and "\<not> no_empty_cell (board g)" and "next_turn g = Some p"
  shows "(fst (move g p pos) = Some (InvalidMovement ''Position out of range.'') \<longleftrightarrow>
            \<not> (\<exists>r\<in>{0, 1, 2}. \<exists>c\<in>{0, 1, 2}. pos = [r, c])) \<and>
         (\<not> (\<exists>r\<in>{0, 1, 2}. \<exists>c\<in>{0, 1, 2}. pos = [r, c]) \<longrightarrow>
            move g p pos = (Some (InvalidMovement ''Position out of range.''), g)) \<and>
         (length pos \<noteq> 2 \<longrightarrow>
            move g p pos = (Some (InvalidMovement ''Position out of range.''), g))"
proof -
  have valid: "position_is_valid pos \<longleftrightarrow> (\<exists>r\<in>{0, 1, 2}. \<exists>c\<in>{0, 1, 2}. pos = [r, c])"
    by (rule position_is_valid_set)
  have out: "move g p pos = (Some (InvalidMovement ''Position out of range.''), g)"
    if "\<not> position_is_valid pos"
    using assms that by (rule move_out_of_range)
  have inr: "fst (move g p pos) \<noteq> Some (InvalidMovement ''Position out of range.'')"
    if "position_is_valid pos"
    using that by (rule move_in_range)
  show ?thesis
    unfolding valid[symmetric]
    using out inr not_length_2_invalid[of pos] by (metis fst_conv)
qed

theorem out_of_range_iff_witness:
  "move (start_new_game ''A'' ''B'') ''A'' [0, 3] =
     (Some (InvalidMovement ''Position out of range.''), start_new_game ''A'' ''B'') \<and>
   move (start_new_game ''A'' ''B'') ''A'' [0, 1, 2] =
     (Some (InvalidMovement ''Position out of range.''), start_new_game ''A'' ''B'') \<and>
   fst (move (start_new_game ''A'' ''B'') ''A'' [2, 0]) \<noteq>
     Some (InvalidMovement ''Position out of range.'')"
proof -
  have h: "\<not> truthy (winner (start_new_game ''A'' ''B''))"
    "\<not> no_empty_cell (board (start_new_game ''A'' ''B''))"
    "next_turn (start_new_game ''A'' ''B'') = Some ''A''"
    by code_simp+
  from out_of_range_iff[OF h, of "[0, 3]"] out_of_range_iff[OF h, of "[0, 1, 2]"]
    out_of_range_iff[OF h, of "[2, 0]"]
  show ?thesis by simp
qed

theorem out_of_range_message_counterexample:
  "fst (move (start_new_game ''A'' ''B'') ''A'' [0, 3]) =
     Some (InvalidMovement ''Position out of range.'') \<and>
   fst (move (start_new_game ''A'' ''B'') ''A'' [0, 3]) \<noteq>
     Some (InvalidMovement ''Position out of range'')"
  by code_simp

text \<open>
  Claim C7 (as amended). Each of the nine positions accepts a mark exactly once in a game.
  A move to an in-range position whose cell is empty, the game-over and turn checks having
  passed, is accepted: \<^verbatim>\<open>move\<close> returns or raises \<^verbatim>\<open>GameOver\<close>, and the cell holds the
  player's mark. Once a cell is not empty, in that state and after any further calls to
  \<^verbatim>\<open>move\<close>, a move to its position that passes the game-over, turn and range checks raises
  \<^verbatim>\<open>InvalidMovement\<close> with the message \<^verbatim>\<open>Position already taken.\<close> (with a final
  period) and leaves the game unchanged. And in a game played from the start, once a call
  for a position has been accepted, every later call for that position, by any player and
  after any further calls, raises \<^verbatim>\<open>InvalidMovement\<close> and leaves the game unchanged.
\<close>

theorem position_accepted_once:
  "(board_3x3 (board g) \<and> \<not> truthy (winner g) \<and> \<not> no_empty_cell (board g) \<and>
      next_turn g = Some p \<and> r < 3 \<and> c < 3 \<and> board g ! r ! c = ''-'' \<longrightarrow>
      accepted g p [int r, int c] \<and>
      board (snd (move g p [int r, int c])) = mark (board g) r c p) \<and>
   (board_3x3 (board g) \<and> r < 3 \<and> c < 3 \<and> board g ! r ! c \<noteq> ''-'' \<and>
      \<not> truthy (winner (play g ms)) \<and> \<not> no_empty_cell (board (play g ms)) \<and>
      next_turn (play g ms) = Some q \<longrightarrow>
      move (play g ms) q [int r, int c] =
        (Some (InvalidMovement ''Position already taken.''), play g ms)) \<and>
   (accepted (play (start_new_game p1 p2) ms1) p' pos \<longrightarrow>
      (\<exists>m. move (play (snd (move (play (start_new_game p1 p2) ms1) p' pos)) ms2) q' pos =
         (Some (InvalidMovement m),
          play (snd (move (play (start_new_game p1 p2) ms1) p' pos)) ms2)))"
proof (intro conjI impI)
  assume a: "board_3x3 (board g) \<and> \<not> truthy (winner g) \<and> \<not> no_empty_cell (board g) \<and>
      next_turn g = Some p \<and> r < 3 \<and> c < 3 \<and> board g ! r ! c = ''-''"
  then have s: "board_3x3 (board g)" by simp
  from a have cp: "checks_pass g p [int r, int c]" by (intro checks_passI) simp_all
  from checks_pass_accepted[OF s cp] show "accepted g p [int r, int c]" .
  from s cp show "board (snd (move g p [int r, int c])) = mark (board g) r c p"
    by (rule move_valid_board)
next
  assume "board_3x3 (board g) \<and> r < 3 \<and> c < 3 \<and> board g ! r ! c \<noteq> ''-'' \<and>
      \<not> truthy (winner (play g ms)) \<and> \<not> no_empty_cell (board (play g ms)) \<and>
      next_turn (play g ms) = Some q"
  then show "move (play g ms) q [int r, int c] =
        (Some (InvalidMovement ''Position already taken.''), play g ms)"
    by (intro play_taken) simp_all
next
  assume "accepted (play (start_new_game p1 p2) ms1) p' pos"
  then show "\<exists>m. move (play (snd (move (play (start_new_game p1 p2) ms1) p' pos)) ms2) q' pos =
         (Some (InvalidMovement m),
          play (snd (move (play (start_new_game p1 p2) ms1) p' pos)) ms2)"
    by (rule later_calls_refused)
qed

theorem position_accepted_once_witness:
  "(accepted (start_new_game ''A'' ''B'') ''A'' [1, 1] \<and>
    board (snd (move (start_new_game ''A'' ''B'') ''A'' [1, 1])) =
      [[''-'', ''-'', ''-''], [''-'', ''A'', ''-''], [''-'', ''-'', ''-'']]) \<and>
   move (play (play (start_new_game ''A'' ''B'') [(''A'', [1, 1])])
           [(''B'', [0, 0]), (''A'', [2, 2])]) ''B'' [1, 1] =
     (Some (InvalidMovement ''Position already taken.''),
      play (play (start_new_game ''A'' ''B'') [(''A'', [1, 1])])
        [(''B'', [0, 0]), (''A'', [2, 2])]) \<and>
   (\<exists>m. move (play (snd (move (play (start_new_game ''A'' ''B'') []) ''A'' [1, 1]))
                 [(''B'', [0, 0])]) ''A'' [1, 1] =
      (Some (InvalidMovement m),
       play (snd (move (play (start_new_game ''A'' ''B'') []) ''A'' [1, 1])) [(''B'', [0, 0])]))"
proof -
  let ?s = "start_new_game ''A'' ''B''"
  let ?g = "play ?s [(''A'', [1, 1])]"
  have a: "board_3x3 (board ?s) \<and> \<not> truthy (winner ?s) \<and> \<not> no_empty_cell (board ?s) \<and>
      next_turn ?s = Some ''A'' \<and> (1::nat) < 3 \<and> (1::nat) < 3 \<and> board ?s ! 1 ! 1 = ''-''"
    by code_simp
  have b: "board_3x3 (board ?g) \<and> (1::nat) < 3 \<and> (1::nat) < 3 \<and> board ?g ! 1 ! 1 \<noteq> ''-'' \<and>
      \<not> truthy (winner (play ?g [(''B'', [0, 0]), (''A'', [2, 2])])) \<and>
      \<not> no_empty_cell (board (play ?g [(''B'', [0, 0]), (''A'', [2, 2])])) \<and>
      next_turn (play ?g [(''B'', [0, 0]), (''A'', [2, 2])]) = Some ''B''"
    by code_simp
  have d: "accepted (play ?s []) ''A'' [1, 1]"
    by code_simp
  have m: "mark (board ?s) 1 1 ''A'' =
      [[''-'', ''-'', ''-''], [''-'', ''A'', ''-''], [''-'', ''-'', ''-'']]"
    by code_simp
  note t = position_accepted_once[where r = 1 and c = 1]
  from t[THEN conjunct1, rule_format, OF a]
    t[THEN conjunct2, THEN conjunct1, rule_format, OF b]
    position_accepted_once[THEN conjunct2, THEN conjunct2, rule_format, OF d,
      of "[(''B'', [0, 0])]" "''A''"]
  show ?thesis by (simp only: m of_nat_1)
qed

theorem taken_message_counterexample:
  "fst (move (play (start_new_game ''A'' ''B'') [(''A'', [1, 1])]) ''B'' [1, 1]) =
     Some (InvalidMovement ''Position already taken.'') \<and>
   fst (move (play (start_new_game ''A'' ''B'') [(''A'', [1, 1])]) ''B'' [1, 1]) \<noteq>
     Some (InvalidMovement ''Position already taken'')"
  by code_simp

text \<open>
  Claim C10. Whenever \<^verbatim>\<open>move\<close> raises \<^verbatim>\<open>InvalidMovement\<close>, for every game, player and
  position, the game is left exactly as it was: board, winner, next turn and both
  players keep their values, because the four validation checks come before any
  assignment.
\<close>

theorem move_invalid_unchanged:
  "fst (move g p pos) = Some (InvalidMovement m) \<Longrightarrow> snd (move g p pos) = g"
  by (auto simp: move_def Let_def split: if_splits sum.splits bool.splits
      dest: position_is_empty_Inl board_assign_Inl check_winning_combinations_Inl)

theorem move_invalid_unchanged_witness:
  "fst (move (start_new_game ''A'' ''B'') ''A'' [3, 0]) =
     Some (InvalidMovement ''Position out of range.'') \<and>
   snd (move (start_new_game ''A'' ''B'') ''A'' [3, 0]) = start_new_game ''A'' ''B''"
proof -
  have h: "fst (move (start_new_game ''A'' ''B'') ''A'' [3, 0]) =
      Some (InvalidMovement ''Position out of range.'')"
    by code_simp
  from move_invalid_unchanged[OF h] h show ?thesis by simp
qed

section \<open>Accepted moves\<close>

text \<open>
  Claim C1 (as amended). On a board of three rows of three cells, when a move by a player
  with a non-empty name passes the four validation checks and the marked board completes
  one of the eight winning combinations for that player, \<^verbatim>\<open>move\<close> raises \<^verbatim>\<open>GameOver\<close>
  and leaves the cell marked, \<^verbatim>\<open>winner\<close> set to the player and \<^verbatim>\<open>next_turn\<close> set to
  \<^verbatim>\<open>None\<close>. The message is the player's name between double quotes followed by
  \<^verbatim>\<open> wins!\<close>.
\<close>

theorem winning_move:
  assumes "board_3x3 (board g)" and "checks_pass g p [int r, int c]" and "p \<noteq> ''''"
    and "completes (mark (board g) r c p) p"
  shows "move g p [int r, int c] =
           (Some (GameOver (CHR 0x22 # p @ CHR 0x22 # '' wins!'')),
            g\<lparr>board := mark (board g) r c p, winner := Some p, next_turn := None\<rparr>)"
  using assms(3,4) by (simp add: move_valid[OF assms(1,2)] quoted_def)

theorem winning_move_witness:
  "move game_a_to_win ''A'' [0, 2] =
     (Some (GameOver (CHR 0x22 # ''A'' @ CHR 0x22 # '' wins!'')),
      game_a_to_win\<lparr>board := [[''A'', ''A'', ''A''], [''B'', ''B'', ''-''], [''-'', ''-'', ''-'']],
                    winner := Some ''A'', next_turn := None\<rparr>)"
proof -
  have h1: "board_3x3 (board game_a_to_win)" by code_simp
  have h2: "checks_pass game_a_to_win ''A'' [int 0, int 2]" by code_simp
  have h3: "''A'' \<noteq> ''''" by simp
  have h4: "completes (mark (board game_a_to_win) 0 2 ''A'') ''A''" by code_simp
  have m: "mark (board game_a_to_win) 0 2 ''A'' =
      [[''A'', ''A'', ''A''], [''B'', ''B'', ''-''], [''-'', ''-'', ''-'']]" by code_simp
  from winning_move[OF h1 h2 h3 h4] show ?thesis by (simp add: m)
qed

theorem winning_message_counterexample:
  "fst (move game_a_to_win ''A'' [0, 2]) = Some (GameOver (CHR 0x22 # ''A'' @ CHR 0x22 # '' wins!'')) \<and>
   fst (move game_a_to_win ''A'' [0, 2]) \<noteq> Some (GameOver ''A wins!'')"
  by code_simp

text \<open>
  The condition \<^verbatim>\<open>if winner:\<close> of \<^verbatim>\<open>move\<close> tests the truth value of the player's name,
  so a player whose name is the empty string completes the top row and the game goes on.
\<close>

lemma empty_name_win_not_registered:
  "move (play (start_new_game '''' ''B'')
           [('''', [0, 0]), (''B'', [1, 0]), ('''', [0, 1]), (''B'', [1, 1])]) '''' [0, 2] =
     (None, \<lparr>player1 = '''', player2 = ''B'',
             board = [['''', '''', ''''], [''B'', ''B'', ''-''], [''-'', ''-'', ''-'']],
             next_turn = Some ''B'', winner = None\<rparr>)"
  by code_simp

text \<open>
  Claim C4. On a board of three rows of three cells and with no winner so far, when a
  move passes the four validation checks, completes no winning combination for the
  player and leaves no cell empty, \<^verbatim>\<open>move\<close> raises \<^verbatim>\<open>GameOver\<close> with the message
  \<^verbatim>\<open>Game is tied!\<close>, sets \<^verbatim>\<open>next_turn\<close> to \<^verbatim>\<open>None\<close> and leaves \<^verbatim>\<open>winner\<close> at \<^verbatim>\<open>None\<close>;
  \<^verbatim>\<open>get_next_turn\<close> then returns \<^verbatim>\<open>None\<close>.
\<close>

theorem tie_move:
  assumes "board_3x3 (board g)" and "checks_pass g p [int r, int c]" and "winner g = None"
    and "\<not> completes (mark (board g) r c p) p"
    and "no_empty_cell (mark (board g) r c p)"
  shows "move g p [int r, int c] =
           (Some (GameOver ''Game is tied!''),
            g\<lparr>board := mark (board g) r c p, next_turn := None\<rparr>) \<and>
         get_next_turn (snd (move g p [int r, int c])) = None \<and>
         get_winner (snd (move g p [int r, int c])) = None"
  using assms(3,4,5) by (simp add: move_valid[OF assms(1,2)] get_next_turn_def get_winner_def)

theorem tie_move_witness:
  "move game_before_tie ''A'' [2, 2] =
     (Some (GameOver ''Game is tied!''),
      game_before_tie\<lparr>board := [[''A'', ''B'', ''A''], [''A'', ''B'', ''B''], [''B'', ''A'', ''A'']],
                      next_turn := None\<rparr>) \<and>
   get_next_turn (snd (move game_before_tie ''A'' [2, 2])) = None \<and>
   get_winner (snd (move game_before_tie ''A'' [2, 2])) = None"
proof -
  have h1: "board_3x3 (board game_before_tie)" by code_simp
  have h2: "checks_pass game_before_tie ''A'' [int 2, int 2]" by code_simp
  have h3: "winner game_before_tie = None" by code_simp
  have h4: "\<not> completes (mark (board game_before_tie) 2 2 ''A'') ''A''" by code_simp
  have h5: "no_empty_cell (mark (board game_before_tie) 2 2 ''A'')" by code_simp
  have m: "mark (board game_before_tie) 2 2 ''A'' =
      [[''A'', ''B'', ''A''], [''A'', ''B'', ''B''], [''B'', ''A'', ''A'']]" by code_simp
  from tie_move[OF h1 h2 h3 h4 h5] show ?thesis by (simp add: m get_next_turn_def get_winner_def h3)
qed




section \<open>The board\<close>

text \<open>
  Claim C8. A cell that is not empty keeps its mark through any sequence of calls to
  \<^verbatim>\<open>move\<close>, whatever the calls raise: it is never emptied and never overwritten. The
  other operations return values and change no game.
\<close>

theorem marked_cell_kept:
  assumes "r < length (board g)" and "c < length (board g ! r)" and "board g ! r ! c \<noteq> ''-''"
  shows "r < length (board (play g ms)) \<and> c < length (board (play g ms) ! r) \<and>
         board (play g ms) ! r ! c = board g ! r ! c \<and>
         board (play g ms) ! r ! c \<noteq> ''-''"
  using play_keeps_cell[OF assms, of ms] assms(3) by simp

theorem marked_cell_kept_witness:
  "board (play game_a_to_win [(''B'', [0, 0]), (''A'', [0, 0]), (''A'', [2, 2]), (''B'', [0, 0])])
     ! 0 ! 0 = ''A''"
proof -
  have h: "0 < length (board game_a_to_win)" "0 < length (board game_a_to_win ! 0)"
    "board game_a_to_win ! 0 ! 0 \<noteq> ''-''"
    by code_simp+
  have v: "board game_a_to_win ! 0 ! 0 = ''A''" by code_simp
  from marked_cell_kept[OF h,
      of "[(''B'', [0, 0]), (''A'', [0, 0]), (''A'', [2, 2]), (''B'', [0, 0])]"] v
  show ?thesis by simp
qed

text \<open>
  Claim C9 (as amended). \<^verbatim>\<open>get_board_as_string\<close> only reads the game. For a board of three
  rows of three cells it returns a newline, then the three rows, each followed by a
  newline, with a row of fourteen dashes and a newline between two rows; the cells of a
  row are separated by a bar with two spaces on each side. A new game renders every cell
  as \<^verbatim>\<open>-\<close>, and after the first player has marked position (1, 1) the player's mark is in
  the centre and \<^verbatim>\<open>-\<close> everywhere else.
\<close>

theorem board_as_string_layout:
  "(board g = [[a0, a1, a2], [b0, b1, b2], [c0, c1, c2]] \<longrightarrow>
      get_board_as_string g =
        Inr (concat [''\<newline>'', a0, ''  |  '', a1, ''  |  '', a2, ''\<newline>'',
                     ''--------------'', ''\<newline>'',
                     b0, ''  |  '', b1, ''  |  '', b2, ''\<newline>'',
                     ''--------------'', ''\<newline>'',
                     c0, ''  |  '', c1, ''  |  '', c2, ''\<newline>''])) \<and>
   get_board_as_string (start_new_game A B) =
     Inr (''\<newline>-  |  -  |  -\<newline>--------------\<newline>-  |  -  |  -\<newline>--------------\<newline>-  |  -  |  -\<newline>'') \<and>
   get_board_as_string (snd (move (start_new_game A B) A [1, 1])) =
     Inr (''\<newline>-  |  -  |  -\<newline>--------------\<newline>-  |  '' @ A @
          ''  |  -\<newline>--------------\<newline>-  |  -  |  -\<newline>'')"
proof (intro conjI impI)
  assume "board g = [[a0, a1, a2], [b0, b1, b2], [c0, c1, c2]]"
  then show "get_board_as_string g =
        Inr (concat [''\<newline>'', a0, ''  |  '', a1, ''  |  '', a2, ''\<newline>'',
                     ''--------------'', ''\<newline>'',
                     b0, ''  |  '', b1, ''  |  '', b2, ''\<newline>'',
                     ''--------------'', ''\<newline>'',
                     c0, ''  |  '', c1, ''  |  '', c2, ''\<newline>''])"
    by (simp add: get_board_as_string_def board_string_def)
next
  show "get_board_as_string (start_new_game A B) =
     Inr (''\<newline>-  |  -  |  -\<newline>--------------\<newline>-  |  -  |  -\<newline>--------------\<newline>-  |  -  |  -\<newline>'')"
    by (simp add: get_board_as_string_def board_string_def start_new_game_def)
next
  have s: "board_3x3 (board (start_new_game A B))"
    by (simp add: board_3x3_def start_new_game_def)
  have c: "checks_pass (start_new_game A B) A [int 1, int 1]"
    by (simp add: checks_pass_def start_new_game_def get_next_turn_def position_is_valid_set
        position_is_empty_in_board_def board_at_def py_getitem_def py_norm_def)
  have "board (snd (move (start_new_game A B) A [1, 1])) =
      [[''-'', ''-'', ''-''], [''-'', A, ''-''], [''-'', ''-'', ''-'']]"
    using move_valid_board[OF s c] by (simp add: mark_def start_new_game_def)
  then show "get_board_as_string (snd (move (start_new_game A B) A [1, 1])) =
     Inr (''\<newline>-  |  -  |  -\<newline>--------------\<newline>-  |  '' @ A @
          ''  |  -\<newline>--------------\<newline>-  |  -  |  -\<newline>'')"
    by (simp add: get_board_as_string_def board_string_def)
qed

theorem board_as_string_layout_witness:
  "get_board_as_string (snd (move (start_new_game ''A'' ''B'') ''A'' [1, 1])) =
     Inr ''\<newline>-  |  -  |  -\<newline>--------------\<newline>-  |  A  |  -\<newline>--------------\<newline>-  |  -  |  -\<newline>''"
proof -
  have b: "board (snd (move (start_new_game ''A'' ''B'') ''A'' [1, 1])) =
      [[''-'', ''-'', ''-''], [''-'', ''A'', ''-''], [''-'', ''-'', ''-'']]"
    by code_simp
  from board_as_string_layout[THEN conjunct1, rule_format, OF b]
  show ?thesis by simp
qed

theorem board_as_string_counterexample:
  "get_board_as_string (start_new_game ''A'' ''B'') =
     Inr ''\<newline>-  |  -  |  -\<newline>--------------\<newline>-  |  -  |  -\<newline>--------------\<newline>-  |  -  |  -\<newline>'' \<and>
   spec_layout (board (start_new_game ''A'' ''B'')) =
     ''- | - | -\<newline>-----\<newline>- | - | -\<newline>-----\<newline>- | - | -'' \<and>
   get_board_as_string (start_new_game ''A'' ''B'') \<noteq>
     Inr (spec_layout (board (start_new_game ''A'' ''B'')))"
  by (simp add: get_board_as_string_def board_string_def start_new_game_def spec_layout_def spec_row_def)

end
